theory Spec2Isabelle
  imports Main
begin

section \<open>Python values the reminder code computes with\<close>

text \<open>
  The reminder scheduler of \<^verbatim>\<open>neo/ext/customisation.py\<close> is a class \<^verbatim>\<open>Reminder\<close>
  (one asyncio task per pending reminder) and four methods of the cog
  \<^verbatim>\<open>Customisation\<close>: \<^verbatim>\<open>_remind\<close> (create), \<^verbatim>\<open>_remind_remove\<close> (cancel),
  \<^verbatim>\<open>_create_first_reminders\<close> (recovery at start-up) and \<^verbatim>\<open>cog_unload\<close> (shutdown).
  Identifiers cannot start with an underscore here, so the leading underscore of a
  method name is dropped.

  Exceptions are values: a call that may raise returns \<open>error + 'a\<close>, paired with the
  state in which the exception left the program.
\<close>

datatype error = ValueError | IndexError | KeyError | AttributeError | RuntimeError
  | PostgresError | HTTPException | Forbidden | NotFound

text \<open>
  \<^verbatim>\<open>isinstance(e, (discord.Forbidden, discord.HTTPException))\<close>: \<^verbatim>\<open>Forbidden\<close> and
  \<^verbatim>\<open>NotFound\<close> are subclasses of \<^verbatim>\<open>HTTPException\<close>.
\<close>

definition is_http :: "error \<Rightarrow> bool" where
  "is_http e = (e = HTTPException \<or> e = Forbidden \<or> e = NotFound)"

text \<open>
  \<^verbatim>\<open>str(n)\<close> of a Python integer is its decimal rendering, \<^verbatim>\<open>int(s)\<close> parses one.
  Python's \<^verbatim>\<open>int\<close> also accepts surrounding white space and single underscores between
  digits; the strings this program parses are slices of \<^verbatim>\<open>str\<close> of an integer and
  path segments of a jump URL, where neither occurs, and they are taken as a
  \<open>ValueError\<close> here.
\<close>

definition digit_char :: "nat \<Rightarrow> char" where
  "digit_char d = ''0123456789'' ! d"

definition digit_val :: "char \<Rightarrow> nat" where
  "digit_val c = length (takeWhile (\<lambda>d. d \<noteq> c) ''0123456789'')"

definition is_digit :: "char \<Rightarrow> bool" where
  "is_digit c = (c \<in> set ''0123456789'')"

fun str_nat :: "nat \<Rightarrow> string" where
  "str_nat n = (if n < 10 then [digit_char n] else str_nat (n div 10) @ [digit_char (n mod 10)])"

declare str_nat.simps [simp del]

definition py_str :: "int \<Rightarrow> string" where
  "py_str i = (if i < 0 then CHR ''-'' # str_nat (nat (- i)) else str_nat (nat i))"

definition digits_val :: "string \<Rightarrow> nat" where
  "digits_val s = foldl (\<lambda>a c. 10 * a + digit_val c) 0 s"

definition py_int :: "string \<Rightarrow> error + int" where
  "py_int s =
     (let neg = (take 1 s = ''-'');
          body = (if take 1 s = ''-'' \<or> take 1 s = ''+'' then drop 1 s else s)
      in if body \<noteq> [] \<and> list_all is_digit body
         then Inr (if neg then - int (digits_val body) else int (digits_val body))
         else Inl ValueError)"

text \<open>\<^verbatim>\<open>s.startswith(p)\<close> and \<^verbatim>\<open>s.endswith(p)\<close>.\<close>

definition startswith :: "string \<Rightarrow> string \<Rightarrow> bool" where
  "startswith s p = (take (length p) s = p)"

definition endswith :: "string \<Rightarrow> string \<Rightarrow> bool" where
  "endswith s p = (length p \<le> length s \<and> drop (length s - length p) s = p)"

text \<open>\<^verbatim>\<open>xs[3]\<close>: an index past the end raises.\<close>

definition item3 :: "'a list \<Rightarrow> error + 'a" where
  "item3 xs = (if 3 < length xs then Inr (xs ! 3) else Inl IndexError)"

text \<open>
  The fixed-width rendering of the last \<open>k\<close> decimal digits of a number; it is not part
  of the program and only describes what a slice of \<open>str_nat\<close> is.
\<close>

fun pad :: "nat \<Rightarrow> nat \<Rightarrow> string" where
  "pad 0 n = []"
| "pad (Suc k) n = pad k (n div 10) @ [digit_char (n mod 10)]"

section \<open>The bot, the store and the event loop\<close>

text \<open>
  A message can be sent to a channel of the bot's cache or to a user directly. Users and
  channels are identified by their Discord id.
\<close>

datatype target = Channel int | User int

text \<open>
  What the scheduler reads from the bot. \<open>get_channel\<close> and \<open>get_user\<close> look an id up in
  the bot's caches (\<open>None\<close> when it is not there); \<open>user_cache\<close> gives, for a user id,
  whether the setting \<^verbatim>\<open>dm_reminders\<close> is \<^verbatim>\<open>True\<close> (\<open>None\<close>: no entry for the
  user). The remaining fields are library functions the code calls and whose text is
  not part of this repository: \<open>url_parts\<close> is \<^verbatim>\<open>URL(s).parts\<close> of yarl, \<open>mention\<close> the
  mention string of a user, \<open>indent\<close> is \<^verbatim>\<open>textwrap.indent\<close>, \<open>strftime\<close> the formatting
  of the deadline in the confirmation and \<open>check_button\<close> the configured emoji of
  \<^verbatim>\<open>ctx.tick(True)\<close>.
\<close>

record bot =
  get_channel :: "int \<Rightarrow> int option"
  get_user :: "int \<Rightarrow> int option"
  user_cache :: "int \<Rightarrow> bool option"
  url_parts :: "string \<Rightarrow> string list"
  mention :: "int \<Rightarrow> string"
  indent :: "string \<Rightarrow> string \<Rightarrow> string"
  strftime :: "int \<Rightarrow> string"
  check_button :: string

text \<open>
  A row of the table \<^verbatim>\<open>reminders\<close>, with the columns the statements name. A deadline
  is a point in time, in seconds.
\<close>

record row =
  col_user_id :: int
  col_content :: string
  col_deadline :: int
  col_id :: int
  col_origin_jump :: string

text \<open>
  The attributes of a \<^verbatim>\<open>Reminder\<close> object (\<^verbatim>\<open>bot\<close> and \<^verbatim>\<open>conn_pool\<close> are the shared bot
  and store). \<open>user\<close> is \<open>None\<close> when the object was built from an owner the bot could not
  resolve.
\<close>

record reminder =
  user :: "int option"
  content :: string
  deadline :: int
  rm_id :: int
  jump_origin :: string

text \<open>
  A task of the event loop: its name, and the reminder whose \<^verbatim>\<open>_do_wait\<close> it runs
  (\<open>None\<close> for a task of any other coroutine). A Live Timer is a task of the first kind.
\<close>

record task =
  task_name :: string
  task_coro :: "reminder option"

text \<open>
  The reactions a command puts on its message: the emoji \<^verbatim>\<open>_EMOJIS.loading\<close> and the
  emoji of \<^verbatim>\<open>ctx.tick(True)\<close>. A request to Discord adds or removes the bot's reaction;
  Discord can refuse it with a status, which discord.py raises as \<^verbatim>\<open>Forbidden\<close> (403),
  \<^verbatim>\<open>NotFound\<close> (404) or \<^verbatim>\<open>HTTPException\<close> (any other).
\<close>

datatype emoji = Loading | Tick

datatype request = AddReaction emoji | RemoveReaction emoji

datatype status = Status403 | Status404 | StatusOther

definition http_error :: "status \<Rightarrow> error" where
  "http_error st =
     (case st of Status403 \<Rightarrow> Forbidden | Status404 \<Rightarrow> NotFound | StatusOther \<Rightarrow> HTTPException)"

text \<open>
  The state the operations change: the rows of the table, whether the store answers
  (a statement raises when it does not), the unfinished tasks of the loop
  (\<^verbatim>\<open>asyncio.all_tasks\<close>), the messages delivered so far, the destinations to which a
  delivery raises, the errors dispatched as \<^verbatim>\<open>command_error\<close> events, the bot's
  reactions on messages (a message is named by its jump URL) and the reaction requests
  Discord refuses, each with its status. The declaration of the table is not part of the
  sources; no uniqueness constraint is modelled.
\<close>

record world =
  reminders :: "row list"
  conn_up :: bool
  all_tasks :: "task list"
  outbox :: "(target \<times> string) list"
  unreachable :: "target list"
  command_errors :: "error list"
  reactions :: "(string \<times> emoji) list"
  refused :: "(request \<times> status) list"

subsection \<open>Store and notifier\<close>

definition execute_insert :: "row \<Rightarrow> world \<Rightarrow> (error + unit) \<times> world" where
  "execute_insert r w =
     (if conn_up w then (Inr (), w\<lparr>reminders := reminders w @ [r]\<rparr>)
      else (Inl PostgresError, w))"

definition matches :: "int \<Rightarrow> int \<Rightarrow> row \<Rightarrow> bool" where
  "matches i uid r = (col_id r = i \<and> col_user_id r = uid)"

definition execute_delete :: "int \<Rightarrow> int \<Rightarrow> world \<Rightarrow> (error + unit) \<times> world" where
  "execute_delete i uid w =
     (if conn_up w
      then (Inr (), w\<lparr>reminders := filter (\<lambda>r. \<not> matches i uid r) (reminders w)\<rparr>)
      else (Inl PostgresError, w))"

definition fetch :: "world \<Rightarrow> error + row list" where
  "fetch w = (if conn_up w then Inr (reminders w) else Inl PostgresError)"

definition send :: "target \<Rightarrow> string \<Rightarrow> world \<Rightarrow> (error + unit) \<times> world" where
  "send tg msg w =
     (if tg \<in> set (unreachable w) then (Inl HTTPException, w)
      else (Inr (), w\<lparr>outbox := outbox w @ [(tg, msg)]\<rparr>))"

subsection \<open>The class Reminder\<close>

text \<open>
  \<^verbatim>\<open>Reminder.__init__\<close> stores its arguments and creates the task
  \<^verbatim>\<open>REMINDER-<rm_id>\<close> on the loop. Nothing else refers to the object.
\<close>

definition Reminder ::
  "int option \<Rightarrow> string \<Rightarrow> int \<Rightarrow> int \<Rightarrow> string \<Rightarrow> world \<Rightarrow> world" where
  "Reminder u c d i j w =
     w\<lparr>all_tasks := all_tasks w @
         [\<lparr>task_name = ''REMINDER-'' @ py_str i,
           task_coro = Some \<lparr>user = u, content = c, deadline = d, rm_id = i,
                             jump_origin = j\<rparr>\<rparr>]\<rparr>"

text \<open>
  \<^verbatim>\<open>_do_remind\<close>: resolve the destination, send, delete the record. Each step that can
  raise ends the handler there.
\<close>

definition do_remind :: "bot \<Rightarrow> reminder \<Rightarrow> world \<Rightarrow> (error + unit) \<times> world" where
  "do_remind b r w =
     (case item3 (url_parts b (jump_origin r)) of
        Inl e \<Rightarrow> (Inl e, w)
      | Inr part \<Rightarrow>
     (case py_int part of
        Inl e \<Rightarrow> (Inl e, w)
      | Inr cid \<Rightarrow>
     (let target = (case get_channel b cid of
                      Some ch \<Rightarrow> Some (Channel ch)
                    | None \<Rightarrow> map_option User (user r))
      in case user r of
        None \<Rightarrow> (Inl AttributeError, w)
      | Some uid \<Rightarrow>
     (case user_cache b uid of
        None \<Rightarrow> (Inl KeyError, w)
      | Some dm \<Rightarrow>
     (let target = (if dm then Some (User uid) else target);
          send_content = ''**'' @ mention b uid @ '' - <'' @ jump_origin r @ ''>**'' @
                         [CHR 0x0A] @ indent b (content r) ''> ''
      in case target of
        None \<Rightarrow> (Inl AttributeError, w)
      | Some tg \<Rightarrow>
     (case send tg send_content w of
        (Inl e, w1) \<Rightarrow> (Inl e, w1)
      | (Inr _, w1) \<Rightarrow> execute_delete (rm_id r) uid w1))))))"

text \<open>
  Modelled from the spec: \<^verbatim>\<open>discord.utils.sleep_until\<close> belongs to discord.py and is
  not part of the sources. It suspends the calling task until the wall clock reaches the
  deadline, and completes at once when the deadline has passed already (Deadline Timer,
  section 4.1). \<open>sleep_until now d\<close> says whether the wait for the deadline \<open>d\<close> is over
  at the time \<open>now\<close>.
\<close>

definition sleep_until :: "int \<Rightarrow> int \<Rightarrow> bool" where
  "sleep_until now d = (d \<le> now)"

text \<open>
  \<^verbatim>\<open>_do_wait\<close> at the time \<open>now\<close>: \<open>None\<close> is a task still suspended in
  \<^verbatim>\<open>sleep_until\<close>; otherwise the handler has run and the task is finished with the
  handler's outcome.
\<close>

definition do_wait ::
  "bot \<Rightarrow> int \<Rightarrow> reminder \<Rightarrow> world \<Rightarrow> (error + unit) option \<times> world" where
  "do_wait b now r w =
     (if sleep_until now (deadline r)
      then (case do_remind b r w of (res, w1) \<Rightarrow> (Some res, w1))
      else (None, w))"

text \<open>
  The loop resuming one task at the time \<open>now\<close>. A task that finishes, with a result or
  with an exception, leaves \<^verbatim>\<open>all_tasks\<close>; its exception stays in the task and reaches
  nobody.
\<close>

definition run_task :: "bot \<Rightarrow> int \<Rightarrow> task \<Rightarrow> world \<Rightarrow> world" where
  "run_task b now t w =
     (case task_coro t of
        None \<Rightarrow> w
      | Some r \<Rightarrow>
          (case do_wait b now r w of
             (None, w1) \<Rightarrow> w1
           | (Some res, w1) \<Rightarrow> w1\<lparr>all_tasks := remove1 t (all_tasks w1)\<rparr>))"

text \<open>\<^verbatim>\<open>task.cancel()\<close> for each task of a list: a cancelled task never resumes.\<close>

definition cancel :: "task list \<Rightarrow> world \<Rightarrow> world" where
  "cancel ts w = w\<lparr>all_tasks := filter (\<lambda>t. t \<notin> set ts) (all_tasks w)\<rparr>"

subsection \<open>The cog Customisation\<close>

text \<open>
  The invocation context of a command: the author's id, the jump URL of the message and
  the channel the command came from. The converted argument of \<^verbatim>\<open>remind\<close> is the text
  of the reminder and its deadline.
\<close>

record ctx =
  author :: int
  jump_url :: string
  channel :: target

record time_converter =
  string :: string
  time :: int

text \<open>
  The id of a new reminder, from \<open>t\<close> = \<^verbatim>\<open>int(time())\<close>:
  \<^verbatim>\<open>int(str(int(time()))[4:])\<close>.
\<close>

definition new_reminder_id :: "int \<Rightarrow> error + int" where
  "new_reminder_id t = py_int (drop 4 (py_str t))"

text \<open>
  \<^verbatim>\<open>_remind\<close> at the clock reading \<open>t\<close>. The command returns nothing (\<open>None\<close> stands for
  Python's \<^verbatim>\<open>None\<close>); an exception leaves it at the statement that raised.
\<close>

definition remind ::
  "bot \<Rightarrow> int \<Rightarrow> ctx \<Rightarrow> time_converter \<Rightarrow> world \<Rightarrow> (error + int option) \<times> world" where
  "remind b t c rem w =
     (case new_reminder_id t of
        Inl e \<Rightarrow> (Inl e, w)
      | Inr reminder_id \<Rightarrow>
     (case execute_insert
             \<lparr>col_user_id = author c, col_content = string rem, col_deadline = time rem,
              col_id = reminder_id, col_origin_jump = jump_url c\<rparr> w of
        (Inl e, w1) \<Rightarrow> (Inl e, w1)
      | (Inr _, w1) \<Rightarrow>
     (let w2 = Reminder (Some (author c)) (string rem) (time rem) reminder_id (jump_url c) w1;
          pretty_time = strftime b (time rem)
      in case send (channel c) (check_button b @ '' Reminder set for '' @ pretty_time) w2 of
        (Inl e, w3) \<Rightarrow> (Inl e, w3)
      | (Inr _, w3) \<Rightarrow> (Inr None, w3))))"

text \<open>
  \<^verbatim>\<open>message.add_reaction\<close> and \<^verbatim>\<open>message.remove_reaction\<close> on the message \<open>msg\<close>:
  a refused request raises, an accepted one changes the bot's reactions.
\<close>

definition react :: "string \<Rightarrow> request \<Rightarrow> world \<Rightarrow> (error + unit) \<times> world" where
  "react msg rq w =
     (case map_of (refused w) rq of
        Some st \<Rightarrow> (Inl (http_error st), w)
      | None \<Rightarrow>
          (Inr (),
           w\<lparr>reactions :=
               (case rq of
                  AddReaction e \<Rightarrow> List.insert (msg, e) (reactions w)
                | RemoveReaction e \<Rightarrow> removeAll (msg, e) (reactions w))\<rparr>))"

text \<open>
  \<^verbatim>\<open>await asyncio.gather(*tasks)\<close> over reaction requests: every request is made; when
  some raise, the exception of \<^verbatim>\<open>gather\<close> is the one raised first, taken here to be
  that of the earliest request in the list. \<open>suppress_gather\<close> is the \<^verbatim>\<open>gather\<close> under
  \<^verbatim>\<open>with suppress(discord.NotFound)\<close>.
\<close>

fun gather :: "string \<Rightarrow> request list \<Rightarrow> world \<Rightarrow> (error + unit) \<times> world" where
  "gather msg [] w = (Inr (), w)"
| "gather msg (rq # tasks) w =
     (case react msg rq w of
        (Inl e, w1) \<Rightarrow> (Inl e, snd (gather msg tasks w1))
      | (Inr _, w1) \<Rightarrow> gather msg tasks w1)"

definition suppress_gather ::
  "string \<Rightarrow> request list \<Rightarrow> world \<Rightarrow> (error + unit) \<times> world" where
  "suppress_gather msg tasks w =
     (case gather msg tasks w of
        (Inl e, w1) \<Rightarrow> (if e = NotFound then (Inr (), w1) else (Inl e, w1))
      | (Inr _, w1) \<Rightarrow> (Inr (), w1))"

text \<open>
  \<^verbatim>\<open>async with ctx.loading():\<close> around a block (\<^verbatim>\<open>neo/context.py\<close>), with the
  defaults \<^verbatim>\<open>prop=True, tick=True, exc_ignore=None\<close>. The generator awaits the loading
  reaction inside its \<^verbatim>\<open>try\<close> and yields; the \<^verbatim>\<open>finally\<close> gathers the removal of
  that reaction and, after a block that raised nothing, the tick.
  \<^item> The reaction is accepted and the block returns: the \<^verbatim>\<open>else\<close> clause adds the tick to
    the tasks and the \<^verbatim>\<open>finally\<close> gathers both.
  \<^item> The reaction is accepted and the block raises \<open>e\<close>: an HTTP exception of Discord makes
    the generator yield a second time, which \<^verbatim>\<open>contextlib\<close> turns into a
    \<open>RuntimeError\<close> (the generator stays suspended); any other exception is dispatched
    as a \<^verbatim>\<open>command_error\<close> event and does not leave the \<^verbatim>\<open>async with\<close>, unless the
    \<^verbatim>\<open>finally\<close> raises.
  \<^item> The reaction raises an HTTP exception of Discord: the handler yields \<^verbatim>\<open>False\<close>, so
    the block runs inside the handler; an exception of the block then leaves the
    \<^verbatim>\<open>async with\<close>, after the \<^verbatim>\<open>finally\<close>, whose own exception takes its place.
  \<^item> The reaction raises anything else: it is dispatched, the \<^verbatim>\<open>finally\<close> runs, and the
    generator ends without a yield, a \<open>RuntimeError\<close> of \<^verbatim>\<open>contextlib\<close>; the block
    does not run.
\<close>

definition loading ::
  "ctx \<Rightarrow> (world \<Rightarrow> (error + unit) \<times> world) \<Rightarrow> world \<Rightarrow> (error + unit) \<times> world" where
  "loading c body w =
     (case react (jump_url c) (AddReaction Loading) w of
        (Inr _, w1) \<Rightarrow>
          (case body w1 of
             (Inr _, w2) \<Rightarrow>
               suppress_gather (jump_url c) [RemoveReaction Loading, AddReaction Tick] w2
           | (Inl e, w2) \<Rightarrow>
               (if is_http e then (Inl RuntimeError, w2)
                else suppress_gather (jump_url c) [RemoveReaction Loading]
                       (w2\<lparr>command_errors := command_errors w2 @ [e]\<rparr>)))
      | (Inl e0, w1) \<Rightarrow>
          (if is_http e0
           then (case body w1 of
                   (Inr _, w2) \<Rightarrow> suppress_gather (jump_url c) [RemoveReaction Loading] w2
                 | (Inl e, w2) \<Rightarrow>
                     (case suppress_gather (jump_url c) [RemoveReaction Loading] w2 of
                        (Inl e2, w3) \<Rightarrow> (Inl e2, w3)
                      | (Inr _, w3) \<Rightarrow> (Inl e, w3)))
           else (case suppress_gather (jump_url c) [RemoveReaction Loading]
                        (w1\<lparr>command_errors := command_errors w1 @ [e0]\<rparr>) of
                   (Inl e2, w3) \<Rightarrow> (Inl e2, w3)
                 | (Inr _, w3) \<Rightarrow> (Inl RuntimeError, w3))))"

text \<open>
  The loop of \<^verbatim>\<open>_remind_remove\<close> over the ids given: cancel every task of \<open>running\<close>
  whose name ends with \<^verbatim>\<open>str(reminder_id)\<close>, then delete the author's record of that
  id.
\<close>

fun remove_items :: "int \<Rightarrow> task list \<Rightarrow> int list \<Rightarrow> world \<Rightarrow> (error + unit) \<times> world" where
  "remove_items uid running [] w = (Inr (), w)"
| "remove_items uid running (reminder_id # items) w =
     (case execute_delete reminder_id uid
             (cancel (filter (\<lambda>t. endswith (task_name t) (py_str reminder_id)) running) w) of
        (Inl e, w1) \<Rightarrow> (Inl e, w1)
      | (Inr _, w1) \<Rightarrow> remove_items uid running items w1)"

definition remind_remove ::
  "ctx \<Rightarrow> int list \<Rightarrow> world \<Rightarrow> (error + int option) \<times> world" where
  "remind_remove c items w =
     (let running = filter (\<lambda>t. startswith (task_name t) ''REMINDER'') (all_tasks w)
      in case loading c (remove_items (author c) running items) w of
        (Inl e, w1) \<Rightarrow> (Inl e, w1)
      | (Inr _, w1) \<Rightarrow> (Inr None, w1))"

text \<open>
  \<^verbatim>\<open>_create_first_reminders\<close>: one \<^verbatim>\<open>Reminder\<close> for each row of the table, in the
  order fetched.
\<close>

definition first_reminder :: "bot \<Rightarrow> world \<Rightarrow> row \<Rightarrow> world" where
  "first_reminder b w record =
     Reminder (get_user b (col_user_id record)) (col_content record) (col_deadline record)
       (col_id record) (col_origin_jump record) w"

definition create_first_reminders :: "bot \<Rightarrow> world \<Rightarrow> (error + unit) \<times> world" where
  "create_first_reminders b w =
     (case fetch w of
        Inl e \<Rightarrow> (Inl e, w)
      | Inr records \<Rightarrow> (Inr (), foldl (first_reminder b) w records))"

text \<open>\<^verbatim>\<open>cog_unload\<close>: cancel every task whose name starts with \<^verbatim>\<open>REMINDER\<close>.\<close>

definition cog_unload :: "world \<Rightarrow> world" where
  "cog_unload w =
     cancel (filter (\<lambda>t. startswith (task_name t) ''REMINDER'') (all_tasks w)) w"

subsection \<open>Live Timers\<close>

text \<open>
  The Live Timers of a state and the ids they stand for. Every task that
  \<^verbatim>\<open>Reminder.__init__\<close> creates carries the name of its id; \<open>named\<close> says so of a state.
\<close>

definition live_timers :: "world \<Rightarrow> reminder list" where
  "live_timers w = List.map_filter task_coro (all_tasks w)"

definition timer_ids :: "world \<Rightarrow> int list" where
  "timer_ids w = map rm_id (live_timers w)"

definition well_named :: "task \<Rightarrow> bool" where
  "well_named t =
     (case task_coro t of
        None \<Rightarrow> True
      | Some r \<Rightarrow> task_name t = ''REMINDER-'' @ py_str (rm_id r))"

definition named :: "world \<Rightarrow> bool" where
  "named w = list_all well_named (all_tasks w)"

text \<open>
  The task \<^verbatim>\<open>Reminder.__init__\<close> creates for a reminder, and the reminder that
  \<^verbatim>\<open>_create_first_reminders\<close> builds from a row.
\<close>

definition timer_of :: "reminder \<Rightarrow> task" where
  "timer_of r = \<lparr>task_name = ''REMINDER-'' @ py_str (rm_id r), task_coro = Some r\<rparr>"

definition armed :: "bot \<Rightarrow> row \<Rightarrow> reminder" where
  "armed b record =
     \<lparr>user = get_user b (col_user_id record), content = col_content record,
      deadline = col_deadline record, rm_id = col_id record,
      jump_origin = col_origin_jump record\<rparr>"

subsection \<open>Sequences of operations\<close>

datatype op = Create int ctx time_converter | Cancel ctx "int list" | Recover

fun step :: "bot \<Rightarrow> op \<Rightarrow> world \<Rightarrow> world" where
  "step b (Create t c rem) w = snd (remind b t c rem w)"
| "step b (Cancel c items) w = snd (remind_remove c items w)"
| "step b Recover w = snd (create_first_reminders b w)"

fun run :: "bot \<Rightarrow> op list \<Rightarrow> world \<Rightarrow> world" where
  "run b [] w = w"
| "run b (x # xs) w = run b xs (step b x w)"



subsection \<open>Sample values\<close>

text \<open>
  A bot that knows the users 42 and 7 and the channel 20, a command of user 42 and an
  empty state, for evaluating the operations.
\<close>

definition bot0 :: bot where
  "bot0 = \<lparr>get_channel = (\<lambda>i. if i = 20 then Some 20 else None),
            get_user = (\<lambda>i. if i = 42 \<or> i = 7 then Some i else None),
            user_cache = (\<lambda>i. if i = 42 \<or> i = 7 then Some False else None),
            url_parts = (\<lambda>s. [''/'', ''channels'', ''10'', ''20'', ''30'']),
            mention = (\<lambda>i. ''<@'' @ py_str i @ ''>''),
            indent = (\<lambda>s p. p @ s),
            strftime = py_str,
            check_button = ''ok''\<rparr>"

definition ctx0 :: ctx where
  "ctx0 = \<lparr>author = 42, jump_url = ''https://discord.com/channels/10/20/30'',
            channel = Channel 20\<rparr>"

definition rem0 :: time_converter where
  "rem0 = \<lparr>string = ''buy milk'', time = 1600000200\<rparr>"

definition world0 :: world where
  "world0 = \<lparr>reminders = [], conn_up = True, all_tasks = [], outbox = [],
              unreachable = [], command_errors = [], reactions = [],
       refused = []\<rparr>"

text \<open>
  The reminder 123 of user 42, its row, and a state that holds both; the reminder 15 of
  user 7 and the reminder 5 of user 42, and a state that holds both with their rows.
\<close>

definition row123 :: row where
  "row123 = \<lparr>col_user_id = 42, col_content = ''buy milk'', col_deadline = 1600000200,
              col_id = 123, col_origin_jump = ''https://discord.com/channels/10/20/30''\<rparr>"

definition rem123 :: reminder where
  "rem123 = \<lparr>user = Some 42, content = ''buy milk'', deadline = 1600000200, rm_id = 123,
              jump_origin = ''https://discord.com/channels/10/20/30''\<rparr>"

definition world123 :: world where
  "world123 = \<lparr>reminders = [row123], conn_up = True, all_tasks = [timer_of rem123],
                outbox = [], unreachable = [], command_errors = [], reactions = [],
       refused = []\<rparr>"

definition row15 :: row where
  "row15 = \<lparr>col_user_id = 7, col_content = ''call home'', col_deadline = 1600000300,
             col_id = 15, col_origin_jump = ''https://discord.com/channels/10/20/31''\<rparr>"

definition row5 :: row where
  "row5 = \<lparr>col_user_id = 42, col_content = ''tea'', col_deadline = 1600000400,
            col_id = 5, col_origin_jump = ''https://discord.com/channels/10/20/32''\<rparr>"

definition world15 :: world where
  "world15 = \<lparr>reminders = [row15, row5], conn_up = True,
               all_tasks = [timer_of (armed bot0 row15), timer_of (armed bot0 row5)],
               outbox = [], unreachable = [], command_errors = [], reactions = [],
       refused = []\<rparr>"

text \<open>
  The table after a restart: the reminder 15 was due while the process was down, the
  owner 99 of the second row is unknown to the bot, and no task is left.
\<close>

definition row15_due :: row where
  "row15_due = row15\<lparr>col_deadline := 1500000000\<rparr>"

definition row99 :: row where
  "row99 = \<lparr>col_user_id = 99, col_content = ''gone'', col_deadline = 1500000100,
             col_id = 99, col_origin_jump = ''https://discord.com/channels/10/20/33''\<rparr>"

definition world_restart :: world where
  "world_restart = \<lparr>reminders = [row15_due, row99, row5], conn_up = True, all_tasks = [],
                     outbox = [], unreachable = [], command_errors = [], reactions = [],
       refused = []\<rparr>"

section \<open>Decimal strings\<close>

lemma digit_cases:
  "d < 10 \<Longrightarrow> d = 0 \<or> d = 1 \<or> d = 2 \<or> d = 3 \<or> d = 4 \<or> d = 5 \<or> d = 6 \<or> d = 7 \<or> d = 8 \<or> d = (9::nat)"
  by arith

lemma digit_val_char: "d < 10 \<Longrightarrow> digit_val (digit_char d) = d"
  using digit_cases[of d] by (auto simp: digit_val_def digit_char_def)

lemma is_digit_char: "d < 10 \<Longrightarrow> is_digit (digit_char d)"
  using digit_cases[of d] by (auto simp: is_digit_def digit_char_def)

lemma length_pad: "length (pad k n) = k"
  by (induction k arbitrary: n) auto

lemma str_nat_step: "10 \<le> n \<Longrightarrow> str_nat n = str_nat (n div 10) @ [digit_char (n mod 10)]"
  by (subst str_nat.simps) simp

lemma str_nat_digit: "n < 10 \<Longrightarrow> str_nat n = [digit_char n]"
  by (subst str_nat.simps) simp

lemma str_nat_split: "10 ^ k \<le> n \<Longrightarrow> 0 < n \<Longrightarrow> str_nat n = str_nat (n div 10 ^ k) @ pad k n"
proof (induction k arbitrary: n)
  case 0
  then show ?case by simp
next
  case (Suc k)
  have "(10::nat) \<le> 10 * 10 ^ k" by simp
  also have "\<dots> \<le> n" using Suc.prems by simp
  finally have big: "10 \<le> n" .
  have low: "10 ^ k \<le> n div 10" using Suc.prems by (simp add: less_eq_div_iff_mult_less_eq mult.commute)
  have pos: "0 < n div 10" using big by (simp add: div_greater_zero_iff)
  from Suc.IH[OF low pos] have "str_nat (n div 10) = str_nat (n div 10 div 10 ^ k) @ pad k (n div 10)" .
  moreover have "n div 10 div 10 ^ k = n div 10 ^ Suc k" by (simp add: div_mult2_eq)
  ultimately show ?case using str_nat_step[OF big] by simp
qed

lemma digits_val_snoc: "digits_val (s @ [c]) = 10 * digits_val s + digit_val c"
  by (simp add: digits_val_def)

lemma digits_val_pad: "digits_val (pad k n) = n mod 10 ^ k"
proof (induction k arbitrary: n)
  case 0
  then show ?case by (simp add: digits_val_def)
next
  case (Suc k)
  have "digits_val (pad (Suc k) n) = 10 * (n div 10 mod 10 ^ k) + n mod 10"
    by (simp add: digits_val_snoc Suc.IH digit_val_char)
  also have "\<dots> = n mod 10 ^ Suc k" by (simp add: mod_mult2_eq)
  finally show ?case .
qed

lemma all_digits_pad: "list_all is_digit (pad k n)"
  by (induction k arbitrary: n) (auto simp: is_digit_char)

lemma py_int_digits:
  assumes "xs \<noteq> []" "list_all is_digit xs"
  shows "py_int xs = Inr (int (digits_val xs))"
proof -
  obtain c cs where eq: "xs = c # cs" using assms(1) by (cases xs) auto
  have "is_digit c" using assms(2) by (simp add: eq)
  then have "c \<noteq> CHR ''-''" "c \<noteq> CHR ''+''" by (auto simp: is_digit_def)
  then show ?thesis using assms(2) by (simp add: py_int_def eq)
qed

lemma py_int_pad: "0 < k \<Longrightarrow> py_int (pad k n) = Inr (int (n mod 10 ^ k))"
  using py_int_digits[of "pad k n"] length_pad[of k n] all_digits_pad[of k n] digits_val_pad[of k n]
  by (cases "pad k n = []") auto

lemma length_str_nat4: assumes "1000 \<le> m" "m < 10000" shows "length (str_nat m) = 4"
proof -
  have "str_nat m = str_nat (m div 10 ^ 3) @ pad 3 m" using assms by (intro str_nat_split) auto
  moreover have "m div 10 ^ 3 < 10" using assms by (simp add: div_less_iff_less_mult)
  ultimately show ?thesis by (simp add: str_nat_digit length_pad)
qed

lemma drop4_str_nat:
  assumes "1000000000 \<le> n" "n < 10000000000"
  shows "drop 4 (str_nat n) = pad 6 n"
proof -
  have s: "str_nat n = str_nat (n div 10 ^ 6) @ pad 6 n" using assms by (intro str_nat_split) auto
  have "1000 \<le> n div 10 ^ 6" "n div 10 ^ 6 < 10000"
    using assms by (simp_all add: less_eq_div_iff_mult_less_eq div_less_iff_less_mult)
  then have "length (str_nat (n div 10 ^ 6)) = 4" by (rule length_str_nat4)
  then show ?thesis by (simp add: s)
qed

lemma new_reminder_id_ten_digits:
  assumes "1000000000 \<le> t" "t < 10000000000"
  shows "new_reminder_id t = Inr (t mod 1000000)"
proof -
  have n: "1000000000 \<le> nat t" "nat t < 10000000000" using assms by auto
  have "new_reminder_id t = py_int (drop 4 (str_nat (nat t)))"
    using assms by (simp add: new_reminder_id_def py_str_def)
  also have "\<dots> = py_int (pad 6 (nat t))" using drop4_str_nat[OF n] by simp
  also have "\<dots> = Inr (int (nat t mod 10 ^ 6))" by (rule py_int_pad) simp
  also have "int (nat t mod 10 ^ 6) = t mod 1000000" using assms by (simp add: zmod_int)
  finally show ?thesis .
qed

section \<open>Effects of the operations on the state\<close>

lemma Reminder_fields [simp]:
  "reminders (Reminder u c d i j w) = reminders w"
  "conn_up (Reminder u c d i j w) = conn_up w"
  "outbox (Reminder u c d i j w) = outbox w"
  "unreachable (Reminder u c d i j w) = unreachable w"
  "command_errors (Reminder u c d i j w) = command_errors w"
  "all_tasks (Reminder u c d i j w) = all_tasks w @
     [\<lparr>task_name = ''REMINDER-'' @ py_str i,
       task_coro = Some \<lparr>user = u, content = c, deadline = d, rm_id = i, jump_origin = j\<rparr>\<rparr>]"
  by (simp_all add: Reminder_def)

lemma send_fields [simp]:
  "reminders (snd (send tg m w)) = reminders w"
  "conn_up (snd (send tg m w)) = conn_up w"
  "all_tasks (snd (send tg m w)) = all_tasks w"
  "unreachable (snd (send tg m w)) = unreachable w"
  "command_errors (snd (send tg m w)) = command_errors w"
  by (simp_all add: send_def)

lemma execute_insert_fields [simp]:
  "reminders (snd (execute_insert r w)) = (if conn_up w then reminders w @ [r] else reminders w)"
  "conn_up (snd (execute_insert r w)) = conn_up w"
  "all_tasks (snd (execute_insert r w)) = all_tasks w"
  "outbox (snd (execute_insert r w)) = outbox w"
  "unreachable (snd (execute_insert r w)) = unreachable w"
  "command_errors (snd (execute_insert r w)) = command_errors w"
  by (simp_all add: execute_insert_def)

lemma execute_delete_fields [simp]:
  "reminders (snd (execute_delete i uid w)) =
     (if conn_up w then filter (\<lambda>r. \<not> matches i uid r) (reminders w) else reminders w)"
  "conn_up (snd (execute_delete i uid w)) = conn_up w"
  "all_tasks (snd (execute_delete i uid w)) = all_tasks w"
  "outbox (snd (execute_delete i uid w)) = outbox w"
  "unreachable (snd (execute_delete i uid w)) = unreachable w"
  "command_errors (snd (execute_delete i uid w)) = command_errors w"
  by (simp_all add: execute_delete_def)

lemma cancel_fields [simp]:
  "reminders (cancel ts w) = reminders w"
  "conn_up (cancel ts w) = conn_up w"
  "outbox (cancel ts w) = outbox w"
  "unreachable (cancel ts w) = unreachable w"
  "command_errors (cancel ts w) = command_errors w"
  "all_tasks (cancel ts w) = filter (\<lambda>t. t \<notin> set ts) (all_tasks w)"
  by (simp_all add: cancel_def)

lemma fst_execute_insert [simp]:
  "fst (execute_insert r w) = (if conn_up w then Inr () else Inl PostgresError)"
  by (simp add: execute_insert_def)

lemma fst_execute_delete [simp]:
  "fst (execute_delete i uid w) = (if conn_up w then Inr () else Inl PostgresError)"
  by (simp add: execute_delete_def)

lemma fst_send [simp]:
  "fst (send tg m w) = (if tg \<in> set (unreachable w) then Inl HTTPException else Inr ())"
  by (simp add: send_def)

lemma map_filter_app: "List.map_filter f (xs @ ys) = List.map_filter f xs @ List.map_filter f ys"
  by (simp add: List.map_filter_def)

text \<open>What a create leaves behind, whatever the confirmation's fate.\<close>

lemma remind_reminders:
  "new_reminder_id t = Inr i \<Longrightarrow>
   reminders (snd (remind b t c rem w)) =
     (if conn_up w
      then reminders w @ [\<lparr>col_user_id = author c, col_content = string rem,
             col_deadline = time rem, col_id = i, col_origin_jump = jump_url c\<rparr>]
      else reminders w)"
  by (auto simp: remind_def execute_insert_def send_def Reminder_def Let_def split: sum.splits prod.splits if_splits)

lemma remind_all_tasks:
  "new_reminder_id t = Inr i \<Longrightarrow>
   all_tasks (snd (remind b t c rem w)) =
     (if conn_up w
      then all_tasks w @ [\<lparr>task_name = ''REMINDER-'' @ py_str i,
             task_coro = Some \<lparr>user = Some (author c), content = string rem,
               deadline = time rem, rm_id = i, jump_origin = jump_url c\<rparr>\<rparr>]
      else all_tasks w)"
  by (auto simp: remind_def execute_insert_def send_def Reminder_def Let_def split: sum.splits prod.splits if_splits)

lemma remind_no_id:
  "new_reminder_id t = Inl e \<Longrightarrow> remind b t c rem w = (Inl e, w)"
  by (simp add: remind_def)

section \<open>Identifiers of new reminders\<close>

text \<open>
  C10. The id a create generates is \<^verbatim>\<open>int(str(int(time()))[4:])\<close>: the record written
  and the timer armed carry it. When the clock reading has ten decimal digits, the id is
  the reading modulo 1000000, so it lies in 0..999999. Ids are not unique (two
  readings 1000000 seconds apart give the same id) and do not increase with the clock
  (the id after 999999 is 0).
\<close>

theorem remind_id_truncated_clock:
  assumes "1000000000 \<le> t" and "t < 10000000000"
  shows "new_reminder_id t = py_int (drop 4 (py_str t)) \<and>
         new_reminder_id t = Inr (t mod 1000000) \<and>
         0 \<le> t mod 1000000 \<and> t mod 1000000 < 1000000 \<and>
         reminders (snd (remind b t c rem w)) =
           (if conn_up w
            then reminders w @ [\<lparr>col_user_id = author c, col_content = string rem,
                   col_deadline = time rem, col_id = t mod 1000000,
                   col_origin_jump = jump_url c\<rparr>]
            else reminders w) \<and>
         timer_ids (snd (remind b t c rem w)) =
           (if conn_up w then timer_ids w @ [t mod 1000000] else timer_ids w) \<and>
         new_reminder_id 1600000000 = new_reminder_id 1601000000 \<and>
         new_reminder_id 1599999999 = Inr 999999 \<and> new_reminder_id 1600000000 = Inr 0"
proof -
  have i: "new_reminder_id t = Inr (t mod 1000000)"
    using assms by (rule new_reminder_id_ten_digits)
  have ids: "timer_ids (snd (remind b t c rem w)) =
      (if conn_up w then timer_ids w @ [t mod 1000000] else timer_ids w)"
    by (simp add: timer_ids_def live_timers_def remind_all_tasks[OF i] map_filter_app)
  have a: "new_reminder_id 1600000000 = Inr 0"
    using new_reminder_id_ten_digits[of 1600000000] by simp
  have b: "new_reminder_id 1601000000 = Inr 0"
    using new_reminder_id_ten_digits[of 1601000000] by simp
  have c: "new_reminder_id 1599999999 = Inr 999999"
    using new_reminder_id_ten_digits[of 1599999999] by simp
  show ?thesis
    using i ids a b c remind_reminders[OF i, of b c rem w]
    by (simp add: new_reminder_id_def)
qed

theorem remind_id_truncated_clock_witness:
  "new_reminder_id 1600000123 = Inr 123 \<and>
   map col_id (reminders (snd (remind bot0 1600000123 ctx0 rem0 world0))) = [123] \<and>
   timer_ids (snd (remind bot0 1600000123 ctx0 rem0 world0)) = [123]"
  using remind_id_truncated_clock[of 1600000123 bot0 ctx0 rem0 world0, THEN conjunct2]
  by (simp add: world0_def timer_ids_def live_timers_def)

section \<open>Evaluating the sample values\<close>

lemmas sample_defs = bot0_def ctx0_def rem0_def world0_def row123_def rem123_def world123_def
  row15_def row5_def world15_def timer_of_def armed_def row15_due_def row99_def
  world_restart_def

lemmas py_defs = py_int_def py_str_def str_nat.simps digit_char_def digit_val_def digits_val_def
  is_digit_def item3_def startswith_def endswith_def

section \<open>The fire handler\<close>

text \<open>
  C1, as stated: after a fire attempt the record is gone from the store even when the
  delivery raised. It fails: the reminder 123 of user 42 fires while its channel cannot
  be reached; the handler ends in the exception of the delivery, the task is finished,
  and the row is still in the table.
\<close>

theorem do_remind_failed_delivery_counterexample:
  "fst (do_remind bot0 rem123 (world123\<lparr>unreachable := [Channel 20]\<rparr>)) = Inl HTTPException \<and>
   reminders (snd (do_remind bot0 rem123 (world123\<lparr>unreachable := [Channel 20]\<rparr>))) = [row123] \<and>
   matches (rm_id rem123) 42 row123 \<and>
   all_tasks (run_task bot0 1600000200 (timer_of rem123) (world123\<lparr>unreachable := [Channel 20]\<rparr>)) = [] \<and>
   reminders (run_task bot0 1600000200 (timer_of rem123) (world123\<lparr>unreachable := [Channel 20]\<rparr>)) = [row123]"
  by (simp add: do_remind_def run_task_def do_wait_def sleep_until_def send_def execute_delete_def matches_def
      sample_defs py_defs)

text \<open>
  C1, amended: when the fire handler returns normally, one message was delivered and no
  record of the reminder's id and owner is left in the store. When it raises, the store
  is as it was; when it is the delivery that raised, the whole state is as it was, so
  the record stays.
\<close>

theorem do_remind_store:
  assumes "do_remind b r w = (res, w1)"
  shows "(res = Inr () \<longrightarrow>
            (\<exists>uid. user r = Some uid \<and>
               reminders w1 = filter (\<lambda>x. \<not> matches (rm_id r) uid x) (reminders w) \<and>
               filter (matches (rm_id r) uid) (reminders w1) = []) \<and>
            length (outbox w1) = Suc (length (outbox w))) \<and>
         (\<forall>e. res = Inl e \<longrightarrow> reminders w1 = reminders w) \<and>
         (res = Inl HTTPException \<longrightarrow> w1 = w)"
  using assms
  by (auto simp: do_remind_def send_def execute_delete_def Let_def
      split: sum.splits option.splits if_splits prod.splits)

theorem do_remind_store_witness:
  "fst (do_remind bot0 rem123 world123) = Inr () \<and>
   reminders (snd (do_remind bot0 rem123 world123)) = [] \<and>
   length (outbox (snd (do_remind bot0 rem123 world123))) = 1"
proof -
  have r: "fst (do_remind bot0 rem123 world123) = Inr ()"
    by (simp add: do_remind_def send_def execute_delete_def sample_defs py_defs)
  then have e: "do_remind bot0 rem123 world123 = (Inr (), snd (do_remind bot0 rem123 world123))"
    by (metis prod.collapse)
  have u: "user rem123 = Some 42" "rm_id rem123 = 123" by (simp_all add: rem123_def)
  have m: "filter (\<lambda>x. \<not> matches 123 42 x) (reminders world123) = []"
    by (simp add: world123_def row123_def matches_def)
  show ?thesis
    using r u m do_remind_store[OF e] by (simp add: world123_def)
qed

section \<open>Creating a reminder\<close>

text \<open>
  C3. A create writes the record first and arms the timer in the state the write left.
  When the write raises, the command ends in that exception and the state is the one it
  started in: no timer, no record.
\<close>

theorem remind_persist_before_arm:
  assumes "new_reminder_id t = Inr i"
  shows "(\<not> conn_up w \<longrightarrow> remind b t c rem w = (Inl PostgresError, w)) \<and>
         (conn_up w \<longrightarrow>
            snd (remind b t c rem w) =
              snd (send (channel c) (check_button b @ '' Reminder set for '' @ strftime b (time rem))
                (Reminder (Some (author c)) (string rem) (time rem) i (jump_url c)
                  (snd (execute_insert
                    \<lparr>col_user_id = author c, col_content = string rem, col_deadline = time rem,
                     col_id = i, col_origin_jump = jump_url c\<rparr> w)))) \<and>
            reminders (snd (remind b t c rem w)) =
              reminders w @ [\<lparr>col_user_id = author c, col_content = string rem,
                col_deadline = time rem, col_id = i, col_origin_jump = jump_url c\<rparr>] \<and>
            all_tasks (snd (remind b t c rem w)) =
              all_tasks w @ [timer_of \<lparr>user = Some (author c), content = string rem,
                deadline = time rem, rm_id = i, jump_origin = jump_url c\<rparr>])"
proof (intro conjI impI)
  assume "\<not> conn_up w"
  then show "remind b t c rem w = (Inl PostgresError, w)"
    using assms by (simp add: remind_def execute_insert_def)
next
  assume up: "conn_up w"
  show "snd (remind b t c rem w) =
      snd (send (channel c) (check_button b @ '' Reminder set for '' @ strftime b (time rem))
        (Reminder (Some (author c)) (string rem) (time rem) i (jump_url c)
          (snd (execute_insert
            \<lparr>col_user_id = author c, col_content = string rem, col_deadline = time rem,
             col_id = i, col_origin_jump = jump_url c\<rparr> w))))"
    using assms up
    by (simp add: remind_def execute_insert_def Let_def split: prod.splits sum.splits)
  show "reminders (snd (remind b t c rem w)) =
      reminders w @ [\<lparr>col_user_id = author c, col_content = string rem,
        col_deadline = time rem, col_id = i, col_origin_jump = jump_url c\<rparr>]"
    using up by (simp add: remind_reminders[OF assms])
  show "all_tasks (snd (remind b t c rem w)) =
      all_tasks w @ [timer_of \<lparr>user = Some (author c), content = string rem,
        deadline = time rem, rm_id = i, jump_origin = jump_url c\<rparr>]"
    using up by (simp add: remind_all_tasks[OF assms] timer_of_def)
qed

lemma id123: "new_reminder_id 1600000123 = Inr 123"
  using new_reminder_id_ten_digits[of 1600000123] by simp

theorem remind_persist_before_arm_witness:
  "remind bot0 1600000123 ctx0 rem0 (world0\<lparr>conn_up := False\<rparr>) =
     (Inl PostgresError, world0\<lparr>conn_up := False\<rparr>) \<and>
   map col_id (reminders (snd (remind bot0 1600000123 ctx0 rem0 world0))) = [123] \<and>
   map task_name (all_tasks (snd (remind bot0 1600000123 ctx0 rem0 world0))) = [''REMINDER-123'']"
  using remind_persist_before_arm[OF id123, of "world0\<lparr>conn_up := False\<rparr>" bot0 ctx0 rem0]
    remind_persist_before_arm[OF id123, of world0 bot0 ctx0 rem0]
  by (simp add: world0_def timer_of_def py_defs)

section \<open>Shutdown\<close>

lemma map_filter_none: "list_all (\<lambda>t. f t = None) xs \<Longrightarrow> List.map_filter f xs = []"
  by (induction xs) auto

lemma well_named_other:
  "well_named t \<Longrightarrow> \<not> startswith (task_name t) ''REMINDER'' \<Longrightarrow> task_coro t = None"
  by (auto simp: well_named_def startswith_def split: option.splits)

text \<open>
  C8. Unloading the cog cancels every Live Timer and leaves the table as it is: the
  tasks that remain are those whose name does not start with \<^verbatim>\<open>REMINDER\<close>, none of
  them a timer.
\<close>

theorem cog_unload_keeps_records:
  assumes "named w"
  shows "reminders (cog_unload w) = reminders w \<and> live_timers (cog_unload w) = [] \<and>
         all_tasks (cog_unload w) =
           filter (\<lambda>t. \<not> startswith (task_name t) ''REMINDER'') (all_tasks w)"
proof -
  have ts: "all_tasks (cog_unload w) =
      filter (\<lambda>t. \<not> startswith (task_name t) ''REMINDER'') (all_tasks w)"
    by (auto simp: cog_unload_def intro: filter_cong)
  have "list_all (\<lambda>t. task_coro t = None) (all_tasks (cog_unload w))"
    using assms well_named_other unfolding ts named_def list_all_iff by auto
  then have "live_timers (cog_unload w) = []"
    unfolding live_timers_def by (rule map_filter_none)
  then show ?thesis using ts by (simp add: cog_unload_def)
qed

theorem cog_unload_keeps_records_witness:
  "reminders (cog_unload world15) = [row15, row5] \<and> live_timers (cog_unload world15) = [] \<and>
   live_timers world15 = [armed bot0 row15, armed bot0 row5]"
proof -
  have n: "named world15"
    by (simp add: named_def well_named_def world15_def timer_of_def)
  have r: "reminders world15 = [row15, row5]"
    by (simp add: world15_def)
  have l: "live_timers world15 = [armed bot0 row15, armed bot0 row5]"
    by (simp add: world15_def live_timers_def timer_of_def)
  show ?thesis
    using cog_unload_keeps_records[OF n] r l by simp
qed

section \<open>Recovery\<close>

lemma first_reminder_fields [simp]:
  "reminders (first_reminder b w r) = reminders w"
  "conn_up (first_reminder b w r) = conn_up w"
  "all_tasks (first_reminder b w r) = all_tasks w @ [timer_of (armed b r)]"
  by (simp_all add: first_reminder_def timer_of_def armed_def)

lemma foldl_first_reminder [simp]:
  "reminders (foldl (first_reminder b) w rs) = reminders w"
  "conn_up (foldl (first_reminder b) w rs) = conn_up w"
  "all_tasks (foldl (first_reminder b) w rs) = all_tasks w @ map (\<lambda>r. timer_of (armed b r)) rs"
  by (induction rs arbitrary: w) simp_all

lemma map_filter_timers [simp]:
  "List.map_filter task_coro (map (\<lambda>r. timer_of (f r)) rs) = map f rs"
  by (induction rs) (simp_all add: timer_of_def)

lemma create_first_reminders_up:
  "conn_up w \<Longrightarrow> create_first_reminders b w = (Inr (), foldl (first_reminder b) w (reminders w))"
  by (simp add: create_first_reminders_def fetch_def)

lemma do_wait_due:
  "deadline r \<le> now \<Longrightarrow>
   do_wait b now r w = (Some (fst (do_remind b r w)), snd (do_remind b r w))"
  by (simp add: do_wait_def sleep_until_def split: prod.splits)

text \<open>
  C4. When the store answers, recovery arms one timer for each row of the table, in
  order, also for rows whose deadline has passed; started with no Live Timer it leaves
  exactly as many timers as there are rows. A timer whose deadline has passed does not
  wait when the loop resumes it: the fire handler runs at once.
\<close>

theorem create_first_reminders_arms_all:
  assumes "conn_up w"
  shows "fst (create_first_reminders b w) = Inr () \<and>
         reminders (snd (create_first_reminders b w)) = reminders w \<and>
         live_timers (snd (create_first_reminders b w)) =
           live_timers w @ map (armed b) (reminders w) \<and>
         (live_timers w = [] \<longrightarrow>
            length (live_timers (snd (create_first_reminders b w))) = length (reminders w) \<and>
            timer_ids (snd (create_first_reminders b w)) = map col_id (reminders w)) \<and>
         (\<forall>record \<in> set (reminders w).
            timer_of (armed b record) \<in> set (all_tasks (snd (create_first_reminders b w))) \<and>
            (col_deadline record \<le> now \<longrightarrow>
               do_wait b now (armed b record) w2 =
                 (Some (fst (do_remind b (armed b record) w2)),
                  snd (do_remind b (armed b record) w2))))"
proof -
  have d: "deadline (armed b x) = col_deadline x" for x
    by (simp add: armed_def)
  have i: "rm_id \<circ> armed b = col_id"
    by (auto simp: armed_def)
  show ?thesis
    using assms
    by (auto simp: create_first_reminders_up live_timers_def timer_ids_def map_filter_app
        do_wait_due d i)
qed

theorem create_first_reminders_arms_all_witness:
  "fst (create_first_reminders bot0 world_restart) = Inr () \<and>
   length (live_timers (snd (create_first_reminders bot0 world_restart))) = 3 \<and>
   timer_ids (snd (create_first_reminders bot0 world_restart)) = [15, 99, 5] \<and>
   fst (do_wait bot0 1600000000 (armed bot0 row15_due) world_restart) = Some (Inr ())"
proof -
  have up: "conn_up world_restart" by (simp add: world_restart_def)
  have l: "live_timers world_restart = []" by (simp add: world_restart_def live_timers_def)
  have rs: "reminders world_restart = [row15_due, row99, row5]"
    by (simp add: world_restart_def)
  have f: "fst (do_remind bot0 (armed bot0 row15_due) world_restart) = Inr ()"
    by (simp add: do_remind_def send_def execute_delete_def sample_defs py_defs)
  show ?thesis
    using create_first_reminders_arms_all[OF up, of bot0 1600000000 world_restart] l f
    by (simp add: rs row15_due_def row15_def row5_def row99_def)
qed


lemma timer_of_inject [simp]: "(timer_of r = timer_of r') = (r = r')"
  by (auto simp: timer_of_def)




section \<open>Cancelling reminders\<close>

lemma is_http_error [simp]: "is_http (http_error st)"
  by (cases st) (simp_all add: is_http_def http_error_def)

text \<open>Reaction requests change the reactions and nothing else.\<close>

lemma react_frame: "\<exists>r. snd (react msg rq w) = w\<lparr>reactions := r\<rparr>"
proof (cases "map_of (refused w) rq")
  case None
  then have "snd (react msg rq w) =
      w\<lparr>reactions := (case rq of AddReaction e \<Rightarrow> List.insert (msg, e) (reactions w)
                        | RemoveReaction e \<Rightarrow> removeAll (msg, e) (reactions w))\<rparr>"
    by (simp add: react_def)
  then show ?thesis by blast
next
  case (Some st)
  then have "snd (react msg rq w) = w\<lparr>reactions := reactions w\<rparr>" by (simp add: react_def)
  then show ?thesis by blast
qed

lemma react_fst:
  "fst (react msg rq w) = Inr () \<or> (\<exists>st. fst (react msg rq w) = Inl (http_error st))"
  by (cases "map_of (refused w) rq") (auto simp: react_def)

lemma gather_frame: "\<exists>r. snd (gather msg rqs w) = w\<lparr>reactions := r\<rparr>"
proof (induction rqs arbitrary: w)
  case Nil
  have "snd (gather msg [] w) = w\<lparr>reactions := reactions w\<rparr>" by simp
  then show ?case by blast
next
  case (Cons rq rqs)
  obtain r1 where r1: "snd (react msg rq w) = w\<lparr>reactions := r1\<rparr>"
    using react_frame by blast
  obtain r2 where r2: "snd (gather msg rqs (w\<lparr>reactions := r1\<rparr>)) = w\<lparr>reactions := r1\<rparr>\<lparr>reactions := r2\<rparr>"
    using Cons.IH by blast
  have "snd (gather msg (rq # rqs) w) = snd (gather msg rqs (snd (react msg rq w)))"
    by (cases "react msg rq w"; cases "fst (react msg rq w)") auto
  then have "snd (gather msg (rq # rqs) w) = w\<lparr>reactions := r2\<rparr>"
    by (simp add: r1 r2)
  then show ?case by blast
qed

lemma suppress_gather_frame: "\<exists>r. snd (suppress_gather msg rqs w) = w\<lparr>reactions := r\<rparr>"
proof -
  have "snd (suppress_gather msg rqs w) = snd (gather msg rqs w)"
    by (auto simp: suppress_gather_def split: prod.splits sum.splits)
  then show ?thesis using gather_frame by simp
qed

lemma react_fields [simp]:
  "reminders (snd (react msg rq w)) = reminders w"
  "conn_up (snd (react msg rq w)) = conn_up w"
  "all_tasks (snd (react msg rq w)) = all_tasks w"
  "outbox (snd (react msg rq w)) = outbox w"
  "command_errors (snd (react msg rq w)) = command_errors w"
  "refused (snd (react msg rq w)) = refused w"
  using react_frame[of msg rq w] by auto

lemma suppress_gather_fields [simp]:
  "reminders (snd (suppress_gather msg rqs w)) = reminders w"
  "conn_up (snd (suppress_gather msg rqs w)) = conn_up w"
  "all_tasks (snd (suppress_gather msg rqs w)) = all_tasks w"
  "outbox (snd (suppress_gather msg rqs w)) = outbox w"
  "command_errors (snd (suppress_gather msg rqs w)) = command_errors w"
  "refused (snd (suppress_gather msg rqs w)) = refused w"
  using suppress_gather_frame[of msg rqs w] by auto

lemma suppress_gather_pair:
  assumes "suppress_gather msg rqs w = (res, w1)"
  shows "all_tasks w1 = all_tasks w" and "reminders w1 = reminders w"
    and "conn_up w1 = conn_up w" and "outbox w1 = outbox w"
    and "command_errors w1 = command_errors w" and "refused w1 = refused w"
  using suppress_gather_fields[of msg rqs w] assms by simp_all

text \<open>
  The block of a command always runs under \<open>loading\<close>, since a reaction request raises
  nothing but HTTP exceptions; the tasks and rows it leaves are those the command leaves.
\<close>

lemma loading_block:
  "all_tasks (snd (loading c body w)) =
     all_tasks (snd (body (snd (react (jump_url c) (AddReaction Loading) w)))) \<and>
   reminders (snd (loading c body w)) =
     reminders (snd (body (snd (react (jump_url c) (AddReaction Loading) w)))) \<and>
   conn_up (snd (loading c body w)) =
     conn_up (snd (body (snd (react (jump_url c) (AddReaction Loading) w))))"
  using react_fst[of "jump_url c" "AddReaction Loading" w]
  by (cases "react (jump_url c) (AddReaction Loading) w";
      cases "body (snd (react (jump_url c) (AddReaction Loading) w))")
     (auto simp: loading_def split: sum.splits prod.splits dest: suppress_gather_pair)

text \<open>The loop of the command looks at the tasks, the rows and the store only.\<close>

lemma remove_items_agree:
  assumes "all_tasks v = all_tasks w" and "reminders v = reminders w" and "conn_up v = conn_up w"
  shows "fst (remove_items uid running items v) = fst (remove_items uid running items w) \<and>
         all_tasks (snd (remove_items uid running items v)) =
           all_tasks (snd (remove_items uid running items w)) \<and>
         reminders (snd (remove_items uid running items v)) =
           reminders (snd (remove_items uid running items w))"
  using assms
proof (induction items arbitrary: v w)
  case Nil
  then show ?case by simp
next
  case (Cons i items)
  let ?ts = "filter (\<lambda>t. endswith (task_name t) (py_str i)) running"
  let ?v1 = "snd (execute_delete i uid (cancel ?ts v))"
  let ?w1 = "snd (execute_delete i uid (cancel ?ts w))"
  show ?case
  proof (cases "conn_up w")
    case True
    have "remove_items uid running (i # items) v = remove_items uid running items ?v1"
      "remove_items uid running (i # items) w = remove_items uid running items ?w1"
      using True Cons.prems by (simp_all add: execute_delete_def)
    moreover have "all_tasks ?v1 = all_tasks ?w1" "reminders ?v1 = reminders ?w1"
      "conn_up ?v1 = conn_up ?w1"
      using Cons.prems by simp_all
    ultimately show ?thesis using Cons.IH[of ?v1 ?w1] by simp
  next
    case False
    then show ?thesis using Cons.prems by (simp add: execute_delete_def)
  qed
qed

lemma remove_items_conn [simp]:
  "conn_up (snd (remove_items uid running items w)) = conn_up w"
  by (induction items arbitrary: w) (auto simp: execute_delete_def split: prod.splits sum.splits)

lemma remove_items_other [simp]:
  "refused (snd (remove_items uid running items w)) = refused w"
  "command_errors (snd (remove_items uid running items w)) = command_errors w"
  "outbox (snd (remove_items uid running items w)) = outbox w"
  "reactions (snd (remove_items uid running items w)) = reactions w"
  by (induction items arbitrary: w)
     (auto simp: execute_delete_def cancel_def split: prod.splits sum.splits)

lemma remove_items_fst:
  "fst (remove_items uid running items w) = Inr () \<or>
   fst (remove_items uid running items w) = Inl PostgresError"
  by (induction items arbitrary: w) (auto simp: execute_delete_def split: prod.splits sum.splits)

lemma remind_remove_tasks:
  "all_tasks (snd (remind_remove c items w)) =
   all_tasks (snd (remove_items (author c)
     (filter (\<lambda>t. startswith (task_name t) ''REMINDER'') (all_tasks w)) items w))"
proof -
  let ?body = "remove_items (author c)
     (filter (\<lambda>t. startswith (task_name t) ''REMINDER'') (all_tasks w)) items"
  have "all_tasks (snd (remind_remove c items w)) = all_tasks (snd (loading c ?body w))"
    by (auto simp: remind_remove_def Let_def split: prod.splits sum.splits)
  also have "\<dots> = all_tasks (snd (?body (snd (react (jump_url c) (AddReaction Loading) w))))"
    using loading_block by blast
  also have "\<dots> = all_tasks (snd (?body w))"
    using remove_items_agree[of "snd (react (jump_url c) (AddReaction Loading) w)" w] by simp
  finally show ?thesis .
qed

lemma remind_remove_rows:
  "reminders (snd (remind_remove c items w)) =
   reminders (snd (remove_items (author c)
     (filter (\<lambda>t. startswith (task_name t) ''REMINDER'') (all_tasks w)) items w))"
proof -
  let ?body = "remove_items (author c)
     (filter (\<lambda>t. startswith (task_name t) ''REMINDER'') (all_tasks w)) items"
  have "reminders (snd (remind_remove c items w)) = reminders (snd (loading c ?body w))"
    by (auto simp: remind_remove_def Let_def split: prod.splits sum.splits)
  also have "\<dots> = reminders (snd (?body (snd (react (jump_url c) (AddReaction Loading) w))))"
    using loading_block by blast
  also have "\<dots> = reminders (snd (?body w))"
    using remove_items_agree[of "snd (react (jump_url c) (AddReaction Loading) w)" w] by simp
  finally show ?thesis .
qed

lemma remind_remove_conn [simp]: "conn_up (snd (remind_remove c items w)) = conn_up w"
proof -
  let ?body = "remove_items (author c)
     (filter (\<lambda>t. startswith (task_name t) ''REMINDER'') (all_tasks w)) items"
  have "conn_up (snd (remind_remove c items w)) = conn_up (snd (loading c ?body w))"
    by (auto simp: remind_remove_def Let_def split: prod.splits sum.splits)
  also have "\<dots> = conn_up (snd (?body (snd (react (jump_url c) (AddReaction Loading) w))))"
    using loading_block by blast
  finally show ?thesis by simp
qed

lemma remove_items_step_up:
  "conn_up w \<Longrightarrow>
   remove_items uid running (i # items) w =
     remove_items uid running items
       (w\<lparr>all_tasks := filter (\<lambda>t. \<not> (t \<in> set running \<and> endswith (task_name t) (py_str i)))
                          (all_tasks w),
          reminders := filter (\<lambda>r. \<not> matches i uid r) (reminders w)\<rparr>)"
  by (simp add: execute_delete_def cancel_def)

lemma remove_items_fst_up: "conn_up w \<Longrightarrow> fst (remove_items uid running items w) = Inr ()"
  by (induction items arbitrary: w) (simp_all add: remove_items_step_up del: remove_items.simps(2))

lemma remove_items_tasks_up:
  "conn_up w \<Longrightarrow>
   all_tasks (snd (remove_items uid running items w)) =
     filter (\<lambda>t. \<not> (t \<in> set running \<and>
              list_ex (\<lambda>i. endswith (task_name t) (py_str i)) items)) (all_tasks w)"
proof (induction items arbitrary: w)
  case Nil
  then show ?case by simp
next
  case (Cons i items)
  show ?case
    unfolding remove_items_step_up[OF Cons.prems]
    by (subst Cons.IH) (use Cons.prems in \<open>auto intro: filter_cong\<close>)
qed

lemma remove_items_rows_up:
  "conn_up w \<Longrightarrow>
   reminders (snd (remove_items uid running items w)) =
     filter (\<lambda>x. \<not> list_ex (\<lambda>i. matches i uid x) items) (reminders w)"
proof (induction items arbitrary: w)
  case Nil
  then show ?case by simp
next
  case (Cons i items)
  show ?case
    unfolding remove_items_step_up[OF Cons.prems]
    by (subst Cons.IH) (use Cons.prems in \<open>auto intro: filter_cong\<close>)
qed

lemma remove_items_tasks_filter:
  "\<exists>P. all_tasks (snd (remove_items uid running items w)) = filter P (all_tasks w)"
proof (induction items arbitrary: w)
  case Nil
  have "all_tasks w = filter (\<lambda>t. True) (all_tasks w)" by simp
  then show ?case by (metis remove_items.simps(1) snd_conv)
next
  case (Cons i items)
  let ?w1 = "snd (execute_delete i uid
      (cancel (filter (\<lambda>t. endswith (task_name t) (py_str i)) running) w))"
  obtain P where P: "all_tasks (snd (remove_items uid running items ?w1)) = filter P (all_tasks ?w1)"
    using Cons.IH by blast
  have t1: "all_tasks ?w1 =
      filter (\<lambda>t. t \<notin> set (filter (\<lambda>t. endswith (task_name t) (py_str i)) running)) (all_tasks w)"
    by simp
  show ?case
  proof (cases "conn_up w")
    case True
    then have "remove_items uid running (i # items) w = remove_items uid running items ?w1"
      by (simp add: execute_delete_def)
    then show ?thesis using P t1 by (metis filter_filter)
  next
    case False
    then have "remove_items uid running (i # items) w =
        (Inl PostgresError, cancel (filter (\<lambda>t. endswith (task_name t) (py_str i)) running) w)"
      by (simp add: execute_delete_def)
    then show ?thesis by (metis cancel_fields(6) snd_conv)
  qed
qed

lemma remind_remove_tasks_up:
  "conn_up w \<Longrightarrow>
   all_tasks (snd (remind_remove c items w)) =
     filter (\<lambda>t. \<not> (startswith (task_name t) ''REMINDER'' \<and>
              list_ex (\<lambda>i. endswith (task_name t) (py_str i)) items)) (all_tasks w)"
  by (simp add: remind_remove_tasks remove_items_tasks_up) (auto intro: filter_cong)

lemma remind_remove_rows_up:
  "conn_up w \<Longrightarrow>
   reminders (snd (remind_remove c items w)) =
     filter (\<lambda>x. \<not> list_ex (\<lambda>i. matches i (author c) x) items) (reminders w)"
  by (simp add: remind_remove_rows remove_items_rows_up)

text \<open>When Discord accepts the reactions, the command raises nothing.\<close>

lemma suppress_gather_ok:
  "refused w = [] \<Longrightarrow> fst (suppress_gather msg rqs w) = Inr ()"
proof -
  have "refused w = [] \<Longrightarrow> fst (gather msg rqs w) = Inr ()"
  proof (induction rqs arbitrary: w)
    case Nil
    then show ?case by simp
  next
    case (Cons rq rqs)
    have "fst (react msg rq w) = Inr ()" using Cons.prems by (simp add: react_def)
    moreover have "refused (snd (react msg rq w)) = []" using Cons.prems by simp
    ultimately show ?case
      using Cons.IH[of "snd (react msg rq w)"]
      by (cases "react msg rq w") auto
  qed
  then show "refused w = [] \<Longrightarrow> fst (suppress_gather msg rqs w) = Inr ()"
    by (auto simp: suppress_gather_def split: prod.splits sum.splits)
qed

lemma loading_ok:
  assumes "refused w = []"
    and "\<And>v. refused v = [] \<Longrightarrow> refused (snd (body v)) = []"
    and "\<And>v. fst (body v) = Inr () \<or> fst (body v) = Inl PostgresError"
  shows "fst (loading c body w) = Inr ()"
proof -
  obtain w1 where r: "react (jump_url c) (AddReaction Loading) w = (Inr (), w1)"
    using assms(1) by (simp add: react_def)
  have "refused (snd (react (jump_url c) (AddReaction Loading) w)) = []"
    using assms(1) by simp
  then have r1: "refused w1 = []" by (simp add: r)
  obtain res w2 where b: "body w1 = (res, w2)" by (cases "body w1")
  have r2: "refused w2 = []" using assms(2)[OF r1] by (simp add: b)
  have res: "res = Inr () \<or> res = Inl PostgresError" using assms(3)[of w1] by (simp add: b)
  have g: "fst (suppress_gather (jump_url c) rqs w2) = Inr ()" for rqs
    using r2 by (rule suppress_gather_ok)
  have g': "fst (suppress_gather (jump_url c) rqs
      (w2\<lparr>command_errors := command_errors w2 @ [e]\<rparr>)) = Inr ()" for rqs e
    using r2 by (intro suppress_gather_ok) simp
  from res show ?thesis
  proof
    assume "res = Inr ()"
    then show ?thesis using g by (simp add: loading_def r b)
  next
    assume "res = Inl PostgresError"
    then show ?thesis using g' by (simp add: loading_def r b is_http_def)
  qed
qed

lemma remind_remove_fst:
  "refused w = [] \<Longrightarrow> fst (remind_remove c items w) = Inr None"
proof -
  assume a: "refused w = []"
  have "fst (loading c (remove_items (author c)
      (filter (\<lambda>t. startswith (task_name t) ''REMINDER'') (all_tasks w)) items) w) = Inr ()"
    using a by (intro loading_ok) (simp_all add: remove_items_fst)
  then show ?thesis
    by (auto simp: remind_remove_def Let_def split: prod.splits sum.splits)
qed

lemma py_str_samples:
  "py_str 5 = ''5''" "py_str 15 = ''15''" "py_str 99 = ''99''" "py_str 123 = ''123''"
  "py_str 124 = ''124''" "py_str 999 = ''999''"
  by (simp_all add: py_str_def str_nat.simps digit_char_def)

lemmas name_defs = py_str_samples startswith_def endswith_def

text \<open>
  C2, at an input where the code departs from it. User 7 holds the reminder 15 and user
  42 the reminder 5, each with its row and its timer. User 42 removes the id 5: the task
  names \<^verbatim>\<open>REMINDER-15\<close> and \<^verbatim>\<open>REMINDER-5\<close> both end with \<^verbatim>\<open>5\<close>, so both timers are
  cancelled, although 15 is not among the ids given; the row of 15 stays.
\<close>

theorem remind_remove_suffix_match:
  "timer_ids world15 = [15, 5] \<and>
   fst (remind_remove ctx0 [5] world15) = Inr None \<and>
   timer_ids (snd (remind_remove ctx0 [5] world15)) = [] \<and>
   reminders (snd (remind_remove ctx0 [5] world15)) = [row15]"
proof -
  have up: "conn_up world15" by (simp add: world15_def)
  have a: "timer_ids world15 = [15, 5]"
    by (simp add: timer_ids_def live_timers_def sample_defs)
  have b: "all_tasks (snd (remind_remove ctx0 [5] world15)) = []"
    by (simp add: remind_remove_tasks_up[OF up]) (simp add: sample_defs name_defs)
  have c: "reminders (snd (remind_remove ctx0 [5] world15)) = [row15]"
    by (simp add: remind_remove_rows_up[OF up]) (simp add: sample_defs matches_def)
  have f: "fst (remind_remove ctx0 [5] world15) = Inr None"
    by (rule remind_remove_fst) (simp add: world15_def)
  show ?thesis using a b c f by (simp add: timer_ids_def live_timers_def)
qed

lemma endswith_append [simp]: "endswith (p @ s) s"
  by (simp add: endswith_def)

lemma well_named_cancelled:
  assumes "well_named t" and "task_coro t = Some r"
  shows "startswith (task_name t) ''REMINDER'' \<and> endswith (task_name t) (py_str (rm_id r))"
proof -
  have n: "task_name t = ''REMINDER-'' @ py_str (rm_id r)"
    using assms by (simp add: well_named_def)
  have "startswith (''REMINDER-'' @ py_str (rm_id r)) ''REMINDER''"
    by (simp add: startswith_def)
  moreover have "endswith (''REMINDER-'' @ py_str (rm_id r)) (py_str (rm_id r))"
    by (rule endswith_append)
  ultimately show ?thesis unfolding n by (rule conjI)
qed

text \<open>
  C9. When a user removes an id and the store answers, no Live Timer of that id is left,
  whoever owns it, while only the rows of that id that belong to the user are deleted: a
  row of the same id of another user stays in the table, without a timer. The command
  raises nothing when Discord accepts its reactions.
\<close>

theorem remind_remove_owner_scope:
  assumes "conn_up w" and "named w"
    and "x \<in> set (reminders w)" and "col_id x = n" and "col_user_id x \<noteq> author c"
  shows "(refused w = [] \<longrightarrow> fst (remind_remove c [n] w) = Inr None) \<and>
         n \<notin> set (timer_ids (snd (remind_remove c [n] w))) \<and>
         reminders (snd (remind_remove c [n] w)) =
           filter (\<lambda>y. \<not> matches n (author c) y) (reminders w) \<and>
         x \<in> set (reminders (snd (remind_remove c [n] w)))"
proof -
  have "rm_id r \<noteq> n" if "r \<in> set (live_timers (snd (remind_remove c [n] w)))" for r
  proof -
    from that obtain t where t: "t \<in> set (all_tasks (snd (remind_remove c [n] w)))"
      and r: "task_coro t = Some r"
      by (auto simp: live_timers_def List.map_filter_def)
    from t have tw: "t \<in> set (all_tasks w)"
      and no: "\<not> (startswith (task_name t) ''REMINDER'' \<and> endswith (task_name t) (py_str n))"
      by (simp_all add: remind_remove_tasks_up[OF assms(1)])
    from tw assms(2) have "well_named t" by (simp add: named_def list_all_iff)
    from well_named_cancelled[OF this r] no show ?thesis by auto
  qed
  then have "n \<notin> set (timer_ids (snd (remind_remove c [n] w)))"
    by (auto simp: timer_ids_def)
  then show ?thesis
    using assms by (simp add: remind_remove_fst remind_remove_rows_up matches_def)
qed

theorem remind_remove_owner_scope_witness:
  "timer_ids world15 = [15, 5] \<and>
   fst (remind_remove ctx0 [15] world15) = Inr None \<and>
   timer_ids (snd (remind_remove ctx0 [15] world15)) = [5] \<and>
   reminders (snd (remind_remove ctx0 [15] world15)) = [row15, row5] \<and>
   col_user_id row15 = 7 \<and> author ctx0 = 42"
proof -
  have up: "conn_up world15" by (simp add: world15_def)
  have n: "named world15" by (simp add: named_def well_named_def world15_def timer_of_def)
  have m: "row15 \<in> set (reminders world15)" by (simp add: world15_def)
  have o: "col_user_id row15 \<noteq> author ctx0" "col_id row15 = 15" "col_user_id row15 = 7"
    "author ctx0 = 42" by (simp_all add: row15_def ctx0_def)
  have a: "timer_ids world15 = [15, 5]"
    by (simp add: timer_ids_def live_timers_def sample_defs)
  have "all_tasks (snd (remind_remove ctx0 [15] world15)) = [timer_of (armed bot0 row5)]"
    by (simp add: remind_remove_tasks_up[OF up]) (simp add: sample_defs name_defs)
  then have b: "timer_ids (snd (remind_remove ctx0 [15] world15)) = [5]"
    by (simp add: timer_ids_def live_timers_def sample_defs)
  have q: "refused world15 = []" by (simp add: world15_def)
  have f: "filter (\<lambda>y. \<not> matches 15 42 y) (reminders world15) = [row15, row5]"
    by (simp add: sample_defs matches_def)
  show ?thesis
    using remind_remove_owner_scope[OF up n m o(2) o(1)] a b f o q by simp
qed

lemma removeAll_insert: "removeAll x (List.insert x xs) = removeAll x xs"
  by (simp add: List.insert_def)

text \<open>
  C7, as stated: removing an id that was never created raises nothing and reports a
  cancelled count of 0. The command reports no count: it returns nothing (Python's
  \<^verbatim>\<open>None\<close>), here for the id 999 in the empty state. And it can raise: when Discord
  refuses the removal of the loading reaction with status 403, the command ends in
  \<^verbatim>\<open>Forbidden\<close>.
\<close>

theorem remind_remove_unknown_id_counterexample:
  "fst (remind_remove ctx0 [999] world0) = Inr None \<and>
   fst (remind_remove ctx0 [999] world0) \<noteq> Inr (Some 0) \<and>
   fst (remind_remove ctx0 [999] (world0\<lparr>refused := [(RemoveReaction Loading, Status403)]\<rparr>)) =
     Inl Forbidden"
  by (simp add: remind_remove_def loading_def react_def suppress_gather_def http_error_def
      execute_delete_def cancel_def world0_def)

text \<open>
  C7, amended: when the store answers and Discord accepts the reactions of the command,
  removing an id that no row of the author carries and with whose digits no task name
  ends raises nothing, returns nothing, and leaves the rows, the tasks, the messages
  and the dispatched errors as they were; the command puts its tick on the message.
\<close>

theorem remind_remove_unknown_id:
  assumes "conn_up w" and "refused w = []"
    and "list_all (\<lambda>t. \<not> endswith (task_name t) (py_str n)) (all_tasks w)"
    and "list_all (\<lambda>x. \<not> matches n (author c) x) (reminders w)"
  shows "remind_remove c [n] w =
           (Inr None,
            w\<lparr>reactions := List.insert (jump_url c, Tick)
                              (removeAll (jump_url c, Loading) (reactions w))\<rparr>)"
proof -
  have t: "filter (\<lambda>t. t \<in> set (all_tasks w) \<and> startswith (task_name t) ''REMINDER'' \<longrightarrow>
        \<not> endswith (task_name t) (py_str n)) (all_tasks w) = all_tasks w"
    using assms(3) by (auto simp: list_all_iff filter_id_conv)
  have r: "filter (\<lambda>x. \<not> matches n (author c) x) (reminders w) = reminders w"
    using assms(4) by (auto simp: list_all_iff filter_id_conv)
  show ?thesis
    using assms(1,2)
    by (simp add: remind_remove_def loading_def react_def suppress_gather_def
        execute_delete_def cancel_def t r removeAll_insert)
qed

theorem remind_remove_unknown_id_witness:
  "remind_remove ctx0 [999] world15 =
     (Inr None, world15\<lparr>reactions := [(''https://discord.com/channels/10/20/30'', Tick)]\<rparr>) \<and>
   timer_ids world15 = [15, 5]"
proof -
  have up: "conn_up world15" by (simp add: world15_def)
  have q: "refused world15 = []" by (simp add: world15_def)
  have t: "list_all (\<lambda>t. \<not> endswith (task_name t) (py_str 999)) (all_tasks world15)"
    by (simp add: sample_defs name_defs)
  have r: "list_all (\<lambda>x. \<not> matches 999 (author ctx0) x) (reminders world15)"
    by (simp add: sample_defs matches_def)
  have a: "timer_ids world15 = [15, 5]"
    by (simp add: timer_ids_def live_timers_def sample_defs)
  have j: "jump_url ctx0 = ''https://discord.com/channels/10/20/30''" "reactions world15 = []"
    by (simp_all add: ctx0_def world15_def)
  show ?thesis
    using remind_remove_unknown_id[OF up q t r] a by (simp add: j)
qed

section \<open>Task names\<close>

text \<open>
  Every state that creates, cancels and recoveries reach from a state whose timers carry
  the name of their id is such a state again.
\<close>

lemma named_filter:
  "named w \<Longrightarrow> all_tasks w1 = filter P (all_tasks w) \<Longrightarrow> named w1"
  by (simp add: named_def list_all_iff)

lemma well_named_timer_of [simp]: "well_named (timer_of r)"
  by (simp add: well_named_def timer_of_def)

lemma remind_remove_tasks_filter:
  "\<exists>P. all_tasks (snd (remind_remove c items w)) = filter P (all_tasks w)"
  using remove_items_tasks_filter unfolding remind_remove_tasks by blast

lemma named_step:
  assumes "named w"
  shows "named (step b x w)"
proof (cases x)
  case (Create t c rem)
  show ?thesis
  proof (cases "new_reminder_id t")
    case (Inl e)
    then show ?thesis using assms Create by (simp add: remind_no_id)
  next
    case (Inr i)
    then show ?thesis
      using assms Create
      by (simp add: named_def remind_all_tasks[OF Inr] well_named_def)
  qed
next
  case (Cancel c items)
  obtain P where "all_tasks (snd (remind_remove c items w)) = filter P (all_tasks w)"
    using remind_remove_tasks_filter by blast
  then show ?thesis using assms Cancel by (simp add: named_filter)
next
  case Recover
  show ?thesis
  proof (cases "conn_up w")
    case True
    then show ?thesis
      using assms Recover
      by (auto simp: named_def create_first_reminders_up list_all_iff)
  next
    case False
    then show ?thesis
      using assms Recover by (simp add: create_first_reminders_def fetch_def)
  qed
qed

lemma named_run: "named w \<Longrightarrow> named (run b ops w)"
  by (induction ops arbitrary: w) (simp_all add: named_step del: step.simps)

section \<open>One timer for each id\<close>

lemma remind_conn [simp]: "conn_up (snd (remind b t c rem w)) = conn_up w"
  by (auto simp: remind_def execute_insert_def send_def Let_def split: prod.splits sum.splits)











end
